theory Spec2Isabelle
  imports Complex_Main "HOL-Library.Multiset"
begin

section \<open>Data model (src/core/rag_pipeline.py, lines 7-32)\<close>

text \<open>
  Exceptions are values. \<open>NameError\<close> is what Python raises when a function body reads a
  name that is bound nowhere.
\<close>

datatype error = NameError

text \<open>
  A metadata dictionary is an association list; \<open>map_of\<close> is \<open>dict.get\<close>, which answers
  \<open>None\<close> for a key that is not there.
\<close>

type_synonym Dict = "(string \<times> string) list"

text \<open>
  The items of \<open>self.documents\<close> and the items the vector store hands back are read through
  \<open>content\<close> and \<open>metadata\<close> only. \<open>RetrievalResult\<close> (the dataclass of lines 7-12) has
  these two fields and adds \<open>score\<close> and \<open>source\<close>. Scores are floats in the source; only
  their order is used, so they are reals here.
\<close>

record Passage =
  content :: string
  metadata :: Dict

record RetrievalResult = Passage +
  score :: real
  source :: string

text \<open>
  \<open>np.argsort(a)\<close> answers with the indices of \<open>a\<close> in ascending order of value: a
  permutation of \<open>0, ..., len(a) - 1\<close> along which the values do not decrease. The source
  calls it with NumPy's default sort kind, which is not stable: the order among the indices
  of equal values is left to NumPy. An \<open>argsort_fn\<close> is any function with this contract;
  nothing more is known of the one the pipeline runs with. \<open>stable_argsort\<close> is the one of
  them that keeps the indices of equal values in ascending order (NumPy's stable kind).
\<close>

definition is_argsort :: "real list \<Rightarrow> nat list \<Rightarrow> bool" where
  "is_argsort a idx = (mset idx = mset [0..<length a] \<and> sorted (map (\<lambda>i. a ! i) idx))"

definition stable_indices :: "real list \<Rightarrow> nat list" where
  "stable_indices a = sort_key (\<lambda>i. a ! i) [0..<length a]"

typedef argsort_fn = "{f :: real list \<Rightarrow> nat list. \<forall>a. is_argsort a (f a)}"
  by (rule exI [of _ stable_indices]) (simp add: is_argsort_def stable_indices_def)

definition stable_argsort :: argsort_fn where
  "stable_argsort = Abs_argsort_fn stable_indices"

text \<open>
  The pipeline object. Its fields are the external capabilities the methods call:
  \<^item> \<open>vector_store\<close>: \<open>self.vector_store.similarity_search(query, k=k)\<close>;
  \<^item> \<open>documents\<close>: \<open>self.documents\<close>;
  \<^item> \<open>bm25\<close>: the lexical model built in the constructor; \<open>bm25 self terms i\<close> is the score
    of document \<open>i\<close>, so that \<open>get_scores\<close> below has one score for every document, as
    \<open>BM25Okapi.get_scores\<close> does;
  \<^item> \<open>reranker\<close>: \<open>self.reranker.predict(pairs)\<close>;
  \<^item> \<open>argsort\<close>: the \<open>np.argsort\<close> of the NumPy the pipeline runs with.

  The constructor (lines 23-32) builds the lexical model over the documents; the library
  cannot build it over an empty corpus, so a pipeline that exists has at least one
  document. Statements that depend on it say \<open>documents self \<noteq> []\<close>.
\<close>

record AdvancedRAGPipeline =
  vector_store :: "string \<Rightarrow> int \<Rightarrow> Passage list"
  documents :: "Passage list"
  bm25 :: "string list \<Rightarrow> nat \<Rightarrow> real"
  reranker :: "(string \<times> string) list \<Rightarrow> real list"
  argsort :: argsort_fn

definition np_argsort :: "AdvancedRAGPipeline \<Rightarrow> real list \<Rightarrow> nat list" where
  "np_argsort self a = Rep_argsort_fn (argsort self) a"

section \<open>Python built-ins used by the pipeline\<close>

text \<open>
  \<open>str.split()\<close> without arguments: the maximal runs of characters that are not
  whitespace. A \<open>char\<close> is a code point below 256; the whitespace among these, by
  \<open>str.isspace\<close>, is the space, U+0009 to U+000D, U+001C to U+001F, U+0085 and U+00A0.
\<close>

definition is_space :: "char \<Rightarrow> bool" where
  "is_space c = (c \<in> set [CHR '' '', CHR 0x09, CHR 0x0A, CHR 0x0B, CHR 0x0C, CHR 0x0D,
                           CHR 0x1C, CHR 0x1D, CHR 0x1E, CHR 0x1F, CHR 0x85, CHR 0xA0])"

fun split_acc :: "string \<Rightarrow> string \<Rightarrow> string list" where
  "split_acc cur [] = (if cur = [] then [] else [rev cur])"
| "split_acc cur (c # cs) =
     (if is_space c
      then (if cur = [] then split_acc [] cs else rev cur # split_acc [] cs)
      else split_acc (c # cur) cs)"

definition str_split :: "string \<Rightarrow> string list" where
  "str_split s = split_acc [] s"

text \<open>
  The slice \<open>xs[-k:]\<close> for an integer \<open>k\<close>: the last \<open>k\<close> items when \<open>k\<close> is positive; the
  whole list when \<open>k = 0\<close> (the start index is \<open>-0 = 0\<close>); the list without its first
  \<open>-k\<close> items when \<open>k\<close> is negative.
\<close>

definition tail_slice :: "int \<Rightarrow> 'a list \<Rightarrow> 'a list" where
  "tail_slice k xs = (if 0 < k then drop (length xs - nat k) xs else drop (nat (- k)) xs)"

text \<open>
  \<open>sorted(xs, key=key, reverse=True)\<close>. CPython keeps a reverse sort stable by reversing
  the list, sorting it ascending with its stable sort, and reversing the result.
\<close>

definition sorted_reverse :: "('a \<Rightarrow> real) \<Rightarrow> 'a list \<Rightarrow> 'a list" where
  "sorted_reverse key xs = rev (sort_key key (rev xs))"

section \<open>Query decomposition (lines 34-43)\<close>

definition decompose_prompt :: "string \<Rightarrow> string" where
  "decompose_prompt query =
     ''Break this query into 2-3 focused sub-queries:'' @ [CHR 0x0A] @
     ''        Query: '' @ query @ [CHR 0x0A] @
     ''        '' @ [CHR 0x0A] @
     ''        Return as JSON list: ['' @ [CHR 0x22] @ ''sub-query 1'' @ [CHR 0x22] @ '', '' @
       [CHR 0x22] @ ''sub-query 2'' @ [CHR 0x22] @ '']'' @ [CHR 0x0A] @
     ''        ''"

text \<open>
  The body builds the prompt, makes no call (the call is a comment) and returns
  \<open>sub_queries\<close>, a name assigned nowhere in the function or the module: the return
  statement raises \<open>NameError\<close>.
\<close>

definition decompose_query :: "AdvancedRAGPipeline \<Rightarrow> string \<Rightarrow> error + string list" where
  "decompose_query self query = (let prompt = decompose_prompt query in Inl NameError)"

section \<open>Hybrid search (lines 45-59)\<close>

definition get_scores :: "AdvancedRAGPipeline \<Rightarrow> string list \<Rightarrow> real list" where
  "get_scores self tokenized_query =
     map (bm25 self tokenized_query) [0..<length (documents self)]"

text \<open>Line 54: \<open>np.argsort(bm25_scores)[-k:][::-1]\<close>.\<close>

definition sparse_indices :: "AdvancedRAGPipeline \<Rightarrow> real list \<Rightarrow> int \<Rightarrow> nat list" where
  "sparse_indices self bm25_scores k = rev (tail_slice k (np_argsort self bm25_scores))"

text \<open>Lines 52-55: the sparse half of \<open>hybrid_search\<close>.\<close>

definition sparse_results :: "AdvancedRAGPipeline \<Rightarrow> string \<Rightarrow> int \<Rightarrow> Passage list" where
  "sparse_results self query k =
     (let tokenized_query = str_split query;
          bm25_scores = get_scores self tokenized_query
      in map (\<lambda>i. documents self ! i) (sparse_indices self bm25_scores k))"

text \<open>
  Modelled from the spec: \<open>_merge_results\<close>, which \<open>hybrid_search\<close> calls at line 58 and
  which no file under src/ defines. Spec 4.3, step 3: concatenate both candidate lists, tag
  each item with its source kind, deduplicate on passage identity (content and locator); a
  passage present in both lists is kept once, tagged \<open>hybrid\<close>, as the dense copy; no score is
  computed at this stage. The locator is read under the key the source uses for it,
  \<open>source_url\<close> (sec_researcher.py, line 67). The first copy of an identity is the one kept.
  Every result is a new value (spec 3: results are created fresh per query), so the scores
  that \<open>rerank\<close> stores later touch neither the documents nor the results of another call.
\<close>

definition passage_id :: "'a Passage_scheme \<Rightarrow> string \<times> string option" where
  "passage_id p = (content p, map_of (metadata p) ''source_url'')"

definition tag :: "string \<Rightarrow> Passage \<Rightarrow> RetrievalResult" where
  "tag kind p = \<lparr>content = content p, metadata = metadata p, score = 0, source = kind\<rparr>"

fun keep_first :: "(string \<times> string option) list \<Rightarrow> RetrievalResult list \<Rightarrow> RetrievalResult list" where
  "keep_first seen [] = []"
| "keep_first seen (r # rs) =
     (if passage_id r \<in> set seen then keep_first seen rs
      else r # keep_first (passage_id r # seen) rs)"

definition merge_results :: "Passage list \<Rightarrow> Passage list \<Rightarrow> RetrievalResult list" where
  "merge_results dense_results sparse =
     (let tagged = map (tag ''dense'') dense_results @ map (tag ''sparse'') sparse;
          in_both = (\<lambda>r. passage_id r \<in> set (map passage_id dense_results) \<and>
                          passage_id r \<in> set (map passage_id sparse))
      in keep_first [] (map (\<lambda>r. if in_both r then r\<lparr>source := ''hybrid''\<rparr> else r) tagged))"

definition hybrid_search :: "AdvancedRAGPipeline \<Rightarrow> string \<Rightarrow> int \<Rightarrow> RetrievalResult list" where
  "hybrid_search self query k =
     (let dense_results = vector_store self query k;
          sparse = sparse_results self query k;
          combined = merge_results dense_results sparse
      in combined)"

section \<open>Re-ranking (lines 61-69)\<close>

text \<open>
  The loop over \<open>zip(results, scores)\<close> stores a score into each result for as long as both
  sequences last; \<open>zip\<close> stops at the shorter one.
\<close>

fun assign_scores :: "RetrievalResult list \<Rightarrow> real list \<Rightarrow> RetrievalResult list" where
  "assign_scores (r # rs) (s # ss) = r\<lparr>score := s\<rparr> # assign_scores rs ss"
| "assign_scores rs [] = rs"
| "assign_scores [] ss = []"

definition rerank :: "AdvancedRAGPipeline \<Rightarrow> string \<Rightarrow> RetrievalResult list \<Rightarrow> RetrievalResult list" where
  "rerank self query results =
     (let pairs = map (\<lambda>r. (query, content r)) results;
          scores = reranker self pairs;
          rescored = assign_scores results scores
      in sorted_reverse score rescored)"

section \<open>Comparison across years (lines 71-81)\<close>

definition filtered_query :: "string \<Rightarrow> string \<Rightarrow> string" where
  "filtered_query query y = query @ '' (year: '' @ y @ '')''"

definition compare_across_years ::
  "AdvancedRAGPipeline \<Rightarrow> string \<Rightarrow> string list \<Rightarrow> (string \<rightharpoonup> RetrievalResult list)" where
  "compare_across_years self query years =
     foldl (\<lambda>results_by_year y.
              results_by_year(y \<mapsto> hybrid_search self (filtered_query query y) 5))
           Map.empty years"

section \<open>The retrieval entry point (lines 83-102)\<close>

text \<open>
  Modelled from the spec: \<open>_deduplicate\<close>, which \<open>retrieve\<close> calls at line 100 and which no
  file under src/ defines. Spec 4.6 and 9: deduplicate on passage identity with a mapping
  from the identity key to the best-scoring result seen so far; when a passage surfaces more
  than once, the occurrence with the higher re-rank score is kept. The mapping keeps its keys
  in the order of their first insertion, as a Python dictionary does.
\<close>

fun keep_best :: "RetrievalResult \<Rightarrow> RetrievalResult list \<Rightarrow> RetrievalResult list" where
  "keep_best r [] = [r]"
| "keep_best r (b # best) =
     (if passage_id b = passage_id r
      then (if score b < score r then r else b) # best
      else b # keep_best r best)"

definition deduplicate :: "RetrievalResult list \<Rightarrow> RetrievalResult list" where
  "deduplicate pool = foldl (\<lambda>best r. keep_best r best) [] pool"

text \<open>Lines 89-97: the loop over the sub-queries, with \<open>all_results\<close> as its accumulator.\<close>

fun pool_results ::
  "AdvancedRAGPipeline \<Rightarrow> string list \<Rightarrow> RetrievalResult list \<Rightarrow> RetrievalResult list" where
  "pool_results self [] all_results = all_results"
| "pool_results self (sq # sub_queries) all_results =
     (let results = hybrid_search self sq 20;
          reranked = rerank self sq results
      in pool_results self sub_queries (all_results @ take 5 reranked))"

text \<open>Lines 89-102: what \<open>retrieve\<close> does once it holds the sub-queries.\<close>

definition retrieve_from :: "AdvancedRAGPipeline \<Rightarrow> string list \<Rightarrow> RetrievalResult list" where
  "retrieve_from self sub_queries =
     (let all_results = pool_results self sub_queries [];
          unique_results = deduplicate all_results
      in take 10 unique_results)"

text \<open>
  \<open>retrieve\<close> itself: the exception of \<open>decompose_query\<close> is not caught, and the parameter
  \<open>strategy\<close> is read nowhere in the body.
\<close>

definition retrieve ::
  "AdvancedRAGPipeline \<Rightarrow> string \<Rightarrow> string \<Rightarrow> error + RetrievalResult list" where
  "retrieve self query strategy =
     (case decompose_query self query of
        Inl e \<Rightarrow> Inl e
      | Inr sub_queries \<Rightarrow> Inr (retrieve_from self sub_queries))"

section \<open>Citations (src/agents/sec_researcher.py, lines 48-73)\<close>

text \<open>
  Modelled from the spec: the class \<open>Citation\<close>, imported from core/citations.py, which is
  not under src/. Spec 3: a value with the fields source type, entity, year, section
  (nullable) and source locator (nullable); the constructor stores its keyword arguments
  \<open>source_type\<close>, \<open>ticker\<close>, \<open>year\<close>, \<open>section\<close> and \<open>url\<close>.
\<close>

record Citation =
  cit_source_type :: string
  cit_ticker :: string
  cit_year :: string
  cit_section :: "string option"
  cit_url :: "string option"

text \<open>The dictionary appended to \<open>risks\<close> at lines 60-69, for one result.\<close>

record Risk =
  risk :: string
  citation :: Citation

definition risk_entry :: "string \<Rightarrow> string \<Rightarrow> RetrievalResult \<Rightarrow> Risk" where
  "risk_entry tkr y result =
     \<lparr>risk = content result,
      citation = \<lparr>cit_source_type = ''10-K'', cit_ticker = tkr, cit_year = y,
                  cit_section = map_of (metadata result) ''section'',
                  cit_url = map_of (metadata result) ''source_url''\<rparr>\<rparr>"

definition analyze_risks ::
  "AdvancedRAGPipeline \<Rightarrow> string \<Rightarrow> string list \<Rightarrow> (string \<rightharpoonup> Risk list)" where
  "analyze_risks self tkr years =
     (let query = ''What are the key business risks for '' @ tkr @ ''?'';
          results_by_year = compare_across_years self query years
      in (\<lambda>y. map_option (map (risk_entry tkr y)) (results_by_year y)))"

section \<open>Concrete pipelines and results, for evaluating the definitions\<close>

definition doc :: "string \<Rightarrow> Passage" where
  "doc c = \<lparr>content = c, metadata = []\<rparr>"

text \<open>
  Two documents to which the lexical model gives the same score; no dense results; an
  \<open>argsort\<close> that keeps equal values in index order.
\<close>

definition tie_pipeline :: AdvancedRAGPipeline where
  "tie_pipeline =
     \<lparr>vector_store = (\<lambda>q k. []),
      documents = [doc ''first'', doc ''second''],
      bm25 = (\<lambda>terms i. 1),
      reranker = (\<lambda>pairs. map (\<lambda>p. 0) pairs),
      argsort = stable_argsort\<rparr>"

text \<open>
  One document that the lexical model scores 0 for every query, no dense results, and a
  re-ranker that scores the content \<open>b\<close> at 0.9 and every other content at 0.4.
\<close>

definition rr_pipeline :: AdvancedRAGPipeline where
  "rr_pipeline =
     \<lparr>vector_store = (\<lambda>q k. []),
      documents = [doc ''a''],
      bm25 = (\<lambda>terms i. 0),
      reranker = (\<lambda>pairs. map (\<lambda>p. if snd p = ''b'' then 9 / 10 else 4 / 10) pairs),
      argsort = stable_argsort\<rparr>"

definition cand :: "string \<Rightarrow> real \<Rightarrow> string \<Rightarrow> RetrievalResult" where
  "cand c s kind = \<lparr>content = c, metadata = [], score = s, source = kind\<rparr>"

text \<open>
  Three documents with lexical scores 0, 1 and 2, and a dense index that answers with the
  second document and with a passage of its own.
\<close>

definition hy_pipeline :: AdvancedRAGPipeline where
  "hy_pipeline =
     \<lparr>vector_store = (\<lambda>q k. [doc ''y'', doc ''w'']),
      documents = [doc ''x'', doc ''y'', doc ''z''],
      bm25 = (\<lambda>terms i. [0, 1, 2] ! i),
      reranker = (\<lambda>pairs. map (\<lambda>p. 0) pairs),
      argsort = stable_argsort\<rparr>"

text \<open>
  Six documents with lexical scores 0 to 5; the dense index answers with the first of them;
  the re-ranker scores it 0 and every other content 1.
\<close>

definition six_pipeline :: AdvancedRAGPipeline where
  "six_pipeline =
     \<lparr>vector_store = (\<lambda>q k. [doc ''d0'']),
      documents = [doc ''d0'', doc ''d1'', doc ''d2'', doc ''d3'', doc ''d4'', doc ''d5''],
      bm25 = (\<lambda>terms i. [0, 1, 2, 3, 4, 5] ! i),
      reranker = (\<lambda>pairs. map (\<lambda>p. if snd p = ''d0'' then 0 else 1) pairs),
      argsort = stable_argsort\<rparr>"

text \<open>A result whose metadata has a section and no locator, and one with no metadata.\<close>

definition with_section :: RetrievalResult where
  "with_section =
     \<lparr>content = ''Supply chain risk'', metadata = [(''section'', ''Item 1A'')],
      score = 1, source = ''sparse''\<rparr>"

text \<open>
  One document and no dense results; the re-ranker scores every pair of the query
  \<open>alpha\<close> at 0.9 and every other pair at 0.4.
\<close>

definition dup_pipeline :: AdvancedRAGPipeline where
  "dup_pipeline =
     \<lparr>vector_store = (\<lambda>q k. []),
      documents = [doc ''p''],
      bm25 = (\<lambda>terms i. 1),
      reranker = (\<lambda>pairs. map (\<lambda>p. if fst p = ''alpha'' then 9 / 10 else 4 / 10) pairs),
      argsort = stable_argsort\<rparr>"

text \<open>
  Two documents and no dense results; for the query \<open>alpha\<close> the re-ranker scores \<open>x\<close> at
  0.5 and \<open>y\<close> at 0.1, for any other query \<open>x\<close> at 0.2 and \<open>y\<close> at 0.9.
\<close>

definition ord_pipeline :: AdvancedRAGPipeline where
  "ord_pipeline =
     \<lparr>vector_store = (\<lambda>q k. []),
      documents = [doc ''x'', doc ''y''],
      bm25 = (\<lambda>terms i. [2, 1] ! i),
      reranker = (\<lambda>pairs. map (\<lambda>p. if fst p = ''alpha''
                                      then (if snd p = ''x'' then 5 / 10 else 1 / 10)
                                      else (if snd p = ''x'' then 2 / 10 else 9 / 10)) pairs),
      argsort = stable_argsort\<rparr>"

text \<open>
  Two documents and no dense results; for every query the lexical model scores the first
  document 1 and the second 0: only the first matches.
\<close>

definition match_pipeline :: AdvancedRAGPipeline where
  "match_pipeline =
     \<lparr>vector_store = (\<lambda>q k. []),
      documents = [doc ''risk factors'', doc ''board members''],
      bm25 = (\<lambda>terms i. [1, 0] ! i),
      reranker = (\<lambda>pairs. map (\<lambda>p. 0) pairs),
      argsort = stable_argsort\<rparr>"

text \<open>A corpus of one passage, of the year 2023; no dense results.\<close>

definition y23_pipeline :: AdvancedRAGPipeline where
  "y23_pipeline =
     \<lparr>vector_store = (\<lambda>q k. []),
      documents = [\<lparr>content = ''Supply chain risk'', metadata = [(''year'', ''2023'')]\<rparr>],
      bm25 = (\<lambda>terms i. 0),
      reranker = (\<lambda>pairs. map (\<lambda>p. 0) pairs),
      argsort = stable_argsort\<rparr>"

text \<open>
  \<open>ord_pipeline\<close> with another dense index: it answers the query \<open>gamma\<close> with a passage
  and every other query with nothing.
\<close>

definition ord_pipeline2 :: AdvancedRAGPipeline where
  "ord_pipeline2 = ord_pipeline\<lparr>vector_store := (\<lambda>q k. if q = ''gamma'' then [doc ''z''] else [])\<rparr>"

section \<open>Facts about the built-ins\<close>

lemma rep_stable_argsort: "Rep_argsort_fn stable_argsort = stable_indices"
  by (simp add: stable_argsort_def Abs_argsort_fn_inverse is_argsort_def stable_indices_def)

lemma np_argsort_is_argsort: "is_argsort a (np_argsort self a)"
  using Rep_argsort_fn [of "argsort self"] by (simp add: np_argsort_def)

lemma set_np_argsort: "set (np_argsort self a) = {..<length a}"
proof -
  have "mset (np_argsort self a) = mset [0..<length a]"
    using np_argsort_is_argsort by (simp add: is_argsort_def)
  then have "set (np_argsort self a) = set [0..<length a]" by (rule mset_eq_setD)
  then show ?thesis by auto
qed

lemma distinct_np_argsort: "distinct (np_argsort self a)"
proof -
  have "mset (np_argsort self a) = mset [0..<length a]"
    using np_argsort_is_argsort by (simp add: is_argsort_def)
  then have "distinct (np_argsort self a) = distinct [0..<length a]"
    by (rule mset_eq_imp_distinct_iff)
  then show ?thesis by simp
qed

lemma length_np_argsort: "length (np_argsort self a) = length a"
proof -
  have "mset (np_argsort self a) = mset [0..<length a]"
    using np_argsort_is_argsort by (simp add: is_argsort_def)
  then have "length (np_argsort self a) = length [0..<length a]" by (rule mset_eq_length)
  then show ?thesis by simp
qed

lemma sorted_np_argsort: "sorted_wrt (\<lambda>i j. a ! i \<le> a ! j) (np_argsort self a)"
  using np_argsort_is_argsort [of a self] by (simp add: is_argsort_def sorted_map)

lemma tail_slice_is_drop: "\<exists>n. tail_slice k xs = drop n xs"
  by (auto simp: tail_slice_def)

lemma length_tail_slice_pos: "1 \<le> k \<Longrightarrow> length (tail_slice k xs) = min (nat k) (length xs)"
  by (auto simp: tail_slice_def)

lemma set_sparse_indices: "set (sparse_indices self a k) \<subseteq> {..<length a}"
proof -
  obtain n where "tail_slice k (np_argsort self a) = drop n (np_argsort self a)"
    using tail_slice_is_drop by blast
  then have "set (sparse_indices self a k) \<subseteq> set (np_argsort self a)"
    by (simp add: sparse_indices_def set_drop_subset)
  then show ?thesis by (simp add: set_np_argsort)
qed

lemma distinct_sparse_indices: "distinct (sparse_indices self a k)"
proof -
  obtain n where "tail_slice k (np_argsort self a) = drop n (np_argsort self a)"
    using tail_slice_is_drop by blast
  then show ?thesis by (simp add: sparse_indices_def distinct_np_argsort)
qed

lemma length_sparse_indices:
  "1 \<le> k \<Longrightarrow> length (sparse_indices self a k) = min (nat k) (length a)"
  by (simp add: sparse_indices_def length_tail_slice_pos length_np_argsort)

lemma length_sparse_results:
  "1 \<le> k \<Longrightarrow> length (sparse_results self query k) = min (nat k) (length (documents self))"
  by (simp add: sparse_results_def Let_def length_sparse_indices get_scores_def)

lemma sorted_wrt_drop_any: "sorted_wrt P xs \<Longrightarrow> sorted_wrt P (drop n xs)"
proof -
  assume "sorted_wrt P xs"
  then have "sorted_wrt P (take n xs @ drop n xs)" by simp
  then show ?thesis unfolding sorted_wrt_append by blast
qed

lemma sparse_indices_descending:
  "sorted_wrt (\<lambda>i j. a ! j \<le> a ! i) (sparse_indices self a k)"
proof -
  obtain n where "tail_slice k (np_argsort self a) = drop n (np_argsort self a)"
    using tail_slice_is_drop by blast
  then show ?thesis
    by (simp add: sparse_indices_def sorted_wrt_rev sorted_wrt_drop_any sorted_np_argsort)
qed

lemma sparse_indices_top:
  assumes "i \<in> set (sparse_indices self a k)" and "j < length a"
    and "j \<notin> set (sparse_indices self a k)"
  shows "a ! j \<le> a ! i"
proof -
  let ?idx = "np_argsort self a"
  obtain n where n: "tail_slice k ?idx = drop n ?idx"
    using tail_slice_is_drop by blast
  have "sorted_wrt (\<lambda>i j. a ! i \<le> a ! j) (take n ?idx @ drop n ?idx)"
    using sorted_np_argsort by simp
  then have cross: "\<forall>x\<in>set (take n ?idx). \<forall>y\<in>set (drop n ?idx). a ! x \<le> a ! y"
    unfolding sorted_wrt_append by blast
  have i: "i \<in> set (drop n ?idx)"
    using assms(1) n by (simp add: sparse_indices_def)
  have "set ?idx = set (take n ?idx) \<union> set (drop n ?idx)"
    by (metis append_take_drop_id set_append)
  moreover have "j \<in> set ?idx"
    using assms(2) set_np_argsort by simp
  moreover have "j \<notin> set (drop n ?idx)"
    using assms(3) n by (simp add: sparse_indices_def)
  ultimately have "j \<in> set (take n ?idx)" by blast
  with cross i show ?thesis by blast
qed

section \<open>Claims\<close>

text \<open>
  C1 (as the code has it). The claim asks \<open>decompose_query\<close> to return a non-empty list
  of sub-queries for every query. The source returns an unassigned name: for every
  pipeline and every query the call ends in \<open>NameError\<close> and no list is returned.
\<close>

theorem decompose_query_raises: "decompose_query self query = Inl NameError"
  by (simp add: decompose_query_def)


lemma assign_scores_zip:
  "length ss = length rs \<Longrightarrow>
   assign_scores rs ss = map2 (\<lambda>r s. r\<lparr>score := s\<rparr>) rs ss"
  by (induction rs ss rule: assign_scores.induct) simp_all

lemma assign_scores_fields:
  "map (\<lambda>r. (content r, metadata r, source r)) (assign_scores rs ss) =
   map (\<lambda>r. (content r, metadata r, source r)) rs"
  by (induction rs ss rule: assign_scores.induct) simp_all

lemma assign_scores_ids: "map passage_id (assign_scores rs ss) = map passage_id rs"
  by (induction rs ss rule: assign_scores.induct) (simp_all add: passage_id_def)

lemma length_assign_scores: "length (assign_scores rs ss) = length rs"
  by (induction rs ss rule: assign_scores.induct) simp_all

lemma mset_sorted_reverse: "mset (sorted_reverse f xs) = mset xs"
  by (simp add: sorted_reverse_def)

lemma set_sorted_reverse: "set (sorted_reverse f xs) = set xs"
  by (simp add: sorted_reverse_def)

lemma length_sorted_reverse: "length (sorted_reverse f xs) = length xs"
  by (simp add: sorted_reverse_def)

lemma sorted_reverse_descending: "sorted_wrt (\<ge>) (map f (sorted_reverse f xs))"
proof -
  have "sorted (map f (sort_key f (rev xs)))" by (rule sorted_sort_key)
  then have "sorted_wrt (\<lambda>x y. y \<ge> x) (map f (sort_key f (rev xs)))" by simp
  then have "sorted_wrt (\<ge>) (rev (map f (sort_key f (rev xs))))"
    by (simp only: sorted_wrt_rev)
  then show ?thesis by (simp add: sorted_reverse_def rev_map)
qed

lemma sorted_reverse_stable:
  "filter (\<lambda>x. f x = v) (sorted_reverse f xs) = filter (\<lambda>x. f x = v) xs"
proof -
  have "filter (\<lambda>x. f x = v) (sorted_reverse f xs) =
        rev (filter (\<lambda>x. f x = v) (sort_key f (rev xs)))"
    by (simp add: sorted_reverse_def rev_filter)
  also have "\<dots> = rev (filter (\<lambda>x. f x = v) (rev xs))"
    by (simp only: sort_key_stable)
  also have "\<dots> = filter (\<lambda>x. f x = v) xs"
    by (simp add: rev_filter)
  finally show ?thesis .
qed

text \<open>
  C2. \<open>rerank\<close>, when the cross-encoder returns one score for every pair: each candidate
  gets the cross-encoder's score in place of the score it came with, and nothing else of it
  changes; the output is a permutation of the candidates so rescored (the same multiset of
  passage identities as the input); its scores are non-increasing; and the results of any
  one score stand in the order they had in the input.
\<close>

theorem rerank_sorted_permutation:
  assumes "length (reranker self (map (\<lambda>r. (query, content r)) results)) = length results"
  shows "mset (rerank self query results) =
           mset (map2 (\<lambda>r s. r\<lparr>score := s\<rparr>) results
                   (reranker self (map (\<lambda>r. (query, content r)) results))) \<and>
         mset (map passage_id (rerank self query results)) = mset (map passage_id results) \<and>
         mset (map (\<lambda>r. (content r, metadata r, source r)) (rerank self query results)) =
           mset (map (\<lambda>r. (content r, metadata r, source r)) results) \<and>
         sorted_wrt (\<ge>) (map score (rerank self query results)) \<and>
         (\<forall>v. filter (\<lambda>r. score r = v) (rerank self query results) =
              filter (\<lambda>r. score r = v)
                (map2 (\<lambda>r s. r\<lparr>score := s\<rparr>) results
                   (reranker self (map (\<lambda>r. (query, content r)) results))))"
proof -
  let ?scores = "reranker self (map (\<lambda>r. (query, content r)) results)"
  let ?rescored = "assign_scores results ?scores"
  have out: "rerank self query results = sorted_reverse score ?rescored"
    by (simp add: rerank_def)
  have zip: "?rescored = map2 (\<lambda>r s. r\<lparr>score := s\<rparr>) results ?scores"
    using assms by (simp add: assign_scores_zip)
  have m: "mset (rerank self query results) = mset ?rescored"
    by (simp add: out mset_sorted_reverse)
  have ids: "mset (map passage_id (rerank self query results)) = mset (map passage_id results)"
  proof -
    have "mset (map passage_id (rerank self query results)) = image_mset passage_id (mset ?rescored)"
      using m by (metis mset_map)
    also have "\<dots> = mset (map passage_id ?rescored)" by simp
    finally show ?thesis by (simp only: assign_scores_ids)
  qed
  have fields: "mset (map (\<lambda>r. (content r, metadata r, source r)) (rerank self query results)) =
                mset (map (\<lambda>r. (content r, metadata r, source r)) results)"
  proof -
    have "mset (map (\<lambda>r. (content r, metadata r, source r)) (rerank self query results)) =
          image_mset (\<lambda>r. (content r, metadata r, source r)) (mset ?rescored)"
      using m by (metis mset_map)
    also have "\<dots> = mset (map (\<lambda>r. (content r, metadata r, source r)) ?rescored)" by simp
    finally show ?thesis by (simp only: assign_scores_fields)
  qed
  have srt: "sorted_wrt (\<ge>) (map score (rerank self query results))"
    unfolding out by (rule sorted_reverse_descending)
  have stab: "\<forall>v. filter (\<lambda>r. score r = v) (rerank self query results) =
                  filter (\<lambda>r. score r = v) ?rescored"
    unfolding out by (simp add: sorted_reverse_stable)
  from m ids fields srt stab show ?thesis unfolding zip by simp
qed

theorem rerank_sorted_permutation_witness:
  "length (reranker rr_pipeline
      (map (\<lambda>r. (''q'', content r))
         [cand ''a'' 5 ''dense'', cand ''b'' 0 ''sparse'', cand ''c'' 7 ''hybrid''])) = 3 \<and>
   rerank rr_pipeline ''q''
     [cand ''a'' 5 ''dense'', cand ''b'' 0 ''sparse'', cand ''c'' 7 ''hybrid''] =
     [cand ''b'' (9 / 10) ''sparse'', cand ''a'' (4 / 10) ''dense'', cand ''c'' (4 / 10) ''hybrid''] \<and>
   sorted_wrt (\<ge>) (map score (rerank rr_pipeline ''q''
     [cand ''a'' 5 ''dense'', cand ''b'' 0 ''sparse'', cand ''c'' 7 ''hybrid'']))"
proof -
  have h: "length (reranker rr_pipeline
      (map (\<lambda>r. (''q'', content r))
         [cand ''a'' 5 ''dense'', cand ''b'' 0 ''sparse'', cand ''c'' 7 ''hybrid''])) =
      length [cand ''a'' 5 ''dense'', cand ''b'' 0 ''sparse'', cand ''c'' 7 ''hybrid'']"
    by (simp add: rr_pipeline_def)
  have ev: "rerank rr_pipeline ''q''
     [cand ''a'' 5 ''dense'', cand ''b'' 0 ''sparse'', cand ''c'' 7 ''hybrid''] =
     [cand ''b'' (9 / 10) ''sparse'', cand ''a'' (4 / 10) ''dense'', cand ''c'' (4 / 10) ''hybrid'']"
    by (simp add: rerank_def rr_pipeline_def cand_def sorted_reverse_def)
  from rerank_sorted_permutation [OF h] h ev show ?thesis by simp
qed

lemma keep_first_ids:
  "set (map passage_id (keep_first seen rs)) = set (map passage_id rs) - set seen"
  by (induction rs arbitrary: seen) auto

lemma keep_first_distinct: "distinct (map passage_id (keep_first seen rs))"
  by (induction rs arbitrary: seen) (auto simp: keep_first_ids simp del: set_map)

lemma keep_first_subset: "set (keep_first seen rs) \<subseteq> set rs"
  by (induction rs arbitrary: seen) auto

lemma length_keep_first: "length (keep_first seen rs) \<le> length rs"
proof (induction rs arbitrary: seen)
  case Nil
  then show ?case by simp
next
  case (Cons r rs)
  have "length (keep_first seen rs) \<le> length rs"
    and "length (keep_first (passage_id r # seen) rs) \<le> length rs"
    using Cons.IH by blast+
  then show ?case by simp
qed

lemma keep_first_all:
  "distinct (map passage_id rs) \<Longrightarrow> set (map passage_id rs) \<inter> set seen = {} \<Longrightarrow>
   keep_first seen rs = rs"
  by (induction rs arbitrary: seen) auto

lemma passage_id_tag: "passage_id (tag kind p) = passage_id p"
  by (simp add: passage_id_def tag_def)

lemma passage_id_source_update: "passage_id (r\<lparr>source := kind\<rparr>) = passage_id r"
  by (simp add: passage_id_def)

text \<open>The candidates of \<open>merge_results\<close> before the first copies are selected.\<close>

lemma merge_results_unfold:
  "merge_results ds sp =
     keep_first []
       (map (\<lambda>r. if passage_id r \<in> set (map passage_id ds) \<and> passage_id r \<in> set (map passage_id sp)
                 then r\<lparr>source := ''hybrid''\<rparr> else r)
          (map (tag ''dense'') ds @ map (tag ''sparse'') sp))"
  by (simp add: merge_results_def Let_def)

lemma merge_results_distinct: "distinct (map passage_id (merge_results ds sp))"
  unfolding merge_results_unfold by (rule keep_first_distinct)

lemma length_merge_results: "length (merge_results ds sp) \<le> length ds + length sp"
proof -
  have "length (merge_results ds sp) \<le>
        length (map (\<lambda>r. if passage_id r \<in> set (map passage_id ds) \<and> passage_id r \<in> set (map passage_id sp)
                 then r\<lparr>source := ''hybrid''\<rparr> else r)
          (map (tag ''dense'') ds @ map (tag ''sparse'') sp))"
    unfolding merge_results_unfold by (rule length_keep_first)
  then show ?thesis by simp
qed

lemma merge_results_ids:
  "set (map passage_id (merge_results ds sp)) = set (map passage_id ds) \<union> set (map passage_id sp)"
proof -
  have "map passage_id
          (map (\<lambda>r. if passage_id r \<in> set (map passage_id ds) \<and> passage_id r \<in> set (map passage_id sp)
                 then r\<lparr>source := ''hybrid''\<rparr> else r)
          (map (tag ''dense'') ds @ map (tag ''sparse'') sp)) =
        map passage_id ds @ map passage_id sp"
    by (simp add: passage_id_tag passage_id_source_update comp_def if_distrib [of passage_id]
        del: set_map)
  then show ?thesis
    unfolding merge_results_unfold keep_first_ids by simp
qed

lemma in_set_map_ex: "y \<in> set (map f xs) \<Longrightarrow> \<exists>x\<in>set xs. y = f x"
  by auto

lemma merge_results_source:
  assumes "r \<in> set (merge_results ds sp)"
  shows "source r =
           (if passage_id r \<in> set (map passage_id ds) \<and> passage_id r \<in> set (map passage_id sp)
            then ''hybrid''
            else if passage_id r \<in> set (map passage_id ds) then ''dense'' else ''sparse'')"
proof -
  let ?both = "\<lambda>r::RetrievalResult.
    passage_id r \<in> set (map passage_id ds) \<and> passage_id r \<in> set (map passage_id sp)"
  let ?relabel = "\<lambda>r. if ?both r then r\<lparr>source := ''hybrid''\<rparr> else r"
  have "r \<in> set (map ?relabel (map (tag ''dense'') ds @ map (tag ''sparse'') sp))"
    using assms keep_first_subset unfolding merge_results_unfold by blast
  then have "\<exists>t\<in>set (map (tag ''dense'') ds @ map (tag ''sparse'') sp). r = ?relabel t"
    by (rule in_set_map_ex)
  then obtain t where t: "r = ?relabel t"
    and "t \<in> set (map (tag ''dense'') ds @ map (tag ''sparse'') sp)"
    by blast
  then have t_in: "t \<in> set (map (tag ''dense'') ds) \<or> t \<in> set (map (tag ''sparse'') sp)"
    by simp
  have id: "passage_id r = passage_id t"
    using t by (simp add: passage_id_source_update)
  from t_in show ?thesis
  proof
    assume "t \<in> set (map (tag ''dense'') ds)"
    then obtain p where p: "p \<in> set ds" "t = tag ''dense'' p" by auto
    then have "passage_id t \<in> set (map passage_id ds)" and "source t = ''dense''"
      by (simp_all add: passage_id_tag) (simp add: tag_def)
    with t id show ?thesis by simp
  next
    assume "t \<in> set (map (tag ''sparse'') sp)"
    then obtain p where p: "p \<in> set sp" "t = tag ''sparse'' p" by auto
    then have "passage_id t \<in> set (map passage_id sp)" and "source t = ''sparse''"
      by (simp_all add: passage_id_tag) (simp add: tag_def)
    with t id show ?thesis by simp
  qed
qed

lemma hybrid_search_unfold:
  "hybrid_search self query k =
     merge_results (vector_store self query k) (sparse_results self query k)"
  by (simp add: hybrid_search_def)

text \<open>
  C3. \<open>hybrid_search\<close> returns no two results with the same passage identity. When
  \<open>k \<ge> 1\<close> and the dense index answers with at most \<open>k\<close> passages, the result has at most
  \<open>2k\<close> items. A passage that is in both the dense and the sparse candidates has an entry
  tagged \<open>hybrid\<close> (a single one, the identities being distinct); every other entry is
  tagged with the one list it comes from.
\<close>

theorem hybrid_search_no_duplicates:
  "distinct (map passage_id (hybrid_search self query k)) \<and>
   (1 \<le> k \<and> int (length (vector_store self query k)) \<le> k \<longrightarrow>
      int (length (hybrid_search self query k)) \<le> 2 * k) \<and>
   (\<forall>p\<in>set (vector_store self query k). \<forall>p'\<in>set (sparse_results self query k).
      passage_id p = passage_id p' \<longrightarrow>
      (\<exists>r\<in>set (hybrid_search self query k). passage_id r = passage_id p \<and> source r = ''hybrid'')) \<and>
   (\<forall>r\<in>set (hybrid_search self query k).
      source r =
        (if passage_id r \<in> set (map passage_id (vector_store self query k)) \<and>
            passage_id r \<in> set (map passage_id (sparse_results self query k))
         then ''hybrid''
         else if passage_id r \<in> set (map passage_id (vector_store self query k))
              then ''dense'' else ''sparse''))"
proof -
  let ?ds = "vector_store self query k"
  let ?sp = "sparse_results self query k"
  let ?out = "hybrid_search self query k"
  have d: "distinct (map passage_id ?out)"
    unfolding hybrid_search_unfold by (rule merge_results_distinct)
  have len: "int (length ?out) \<le> 2 * k" if k: "1 \<le> k" and dl: "int (length ?ds) \<le> k"
  proof -
    have "length ?out \<le> length ?ds + length ?sp"
      unfolding hybrid_search_unfold by (rule length_merge_results)
    moreover have "length ?sp = min (nat k) (length (documents self))"
      using k by (rule length_sparse_results)
    ultimately show ?thesis using k dl by linarith
  qed
  have src: "\<forall>r\<in>set ?out. source r =
        (if passage_id r \<in> set (map passage_id ?ds) \<and> passage_id r \<in> set (map passage_id ?sp)
         then ''hybrid''
         else if passage_id r \<in> set (map passage_id ?ds) then ''dense'' else ''sparse'')"
    unfolding hybrid_search_unfold using merge_results_source by blast
  have both: "\<exists>r\<in>set ?out. passage_id r = passage_id p \<and> source r = ''hybrid''"
    if p: "p \<in> set ?ds" and p': "p' \<in> set ?sp" and eq: "passage_id p = passage_id p'"
    for p p'
  proof -
    have in_ds: "passage_id p \<in> set (map passage_id ?ds)" using p by simp
    have in_sp: "passage_id p \<in> set (map passage_id ?sp)" using p' eq by force
    have "passage_id p \<in> set (map passage_id ?out)"
      unfolding hybrid_search_unfold merge_results_ids using in_ds by blast
    then obtain r where r: "r \<in> set ?out" "passage_id p = passage_id r"
      using in_set_map_ex [of "passage_id p" passage_id ?out] by blast
    with src in_ds in_sp have "source r = ''hybrid''" by simp
    with r show ?thesis by auto
  qed
  from d len src both show ?thesis by blast
qed

theorem hybrid_search_no_duplicates_witness:
  "(1::int) \<le> 2 \<and> int (length (vector_store hy_pipeline ''risk'' 2)) \<le> 2 \<and>
   doc ''y'' \<in> set (vector_store hy_pipeline ''risk'' 2) \<and>
   doc ''y'' \<in> set (sparse_results hy_pipeline ''risk'' 2) \<and>
   hybrid_search hy_pipeline ''risk'' 2 =
     [cand ''y'' 0 ''hybrid'', cand ''w'' 0 ''dense'', cand ''z'' 0 ''sparse''] \<and>
   distinct (map passage_id (hybrid_search hy_pipeline ''risk'' 2)) \<and>
   int (length (hybrid_search hy_pipeline ''risk'' 2)) \<le> 2 * 2"
proof -
  have sp: "sparse_results hy_pipeline ''risk'' 2 = [doc ''z'', doc ''y'']"
    by (simp add: sparse_results_def sparse_indices_def np_argsort_def rep_stable_argsort stable_indices_def tail_slice_def
        get_scores_def hy_pipeline_def upt_rec)
  have ds: "vector_store hy_pipeline ''risk'' 2 = [doc ''y'', doc ''w'']"
    by (simp add: hy_pipeline_def)
  have ev: "hybrid_search hy_pipeline ''risk'' 2 =
     [cand ''y'' 0 ''hybrid'', cand ''w'' 0 ''dense'', cand ''z'' 0 ''sparse'']"
    by (simp add: hybrid_search_def sp ds merge_results_def tag_def doc_def cand_def
        passage_id_def)
  from hybrid_search_no_duplicates [of hy_pipeline "''risk''" 2] show ?thesis
    by (simp add: sp ds ev)
qed

lemma keep_best_ids:
  "map passage_id (keep_best r best) =
     (if passage_id r \<in> set (map passage_id best) then map passage_id best
      else map passage_id best @ [passage_id r])"
  by (induction best) auto

lemma keep_best_distinct:
  "distinct (map passage_id best) \<Longrightarrow> distinct (map passage_id (keep_best r best))"
  unfolding keep_best_ids by simp

lemma keep_best_subset: "set (keep_best r best) \<subseteq> insert r (set best)"
  by (induction best) auto

lemma keep_best_covers:
  "x \<in> insert r (set best) \<Longrightarrow>
   \<exists>u\<in>set (keep_best r best). passage_id u = passage_id x \<and> score x \<le> score u"
proof (induction best)
  case Nil
  then show ?case by simp
next
  case (Cons b best)
  show ?case
  proof (cases "passage_id b = passage_id r")
    case True
    then have kb: "keep_best r (b # best) = (if score b < score r then r else b) # best"
      by simp
    from Cons.prems consider "x = r" | "x = b" | "x \<in> set best" by auto
    then show ?thesis
    proof cases
      case 1
      with True kb show ?thesis by auto
    next
      case 2
      with True kb show ?thesis by auto
    next
      case 3
      with kb show ?thesis by auto
    qed
  next
    case False
    then have kb: "keep_best r (b # best) = b # keep_best r best" by simp
    show ?thesis
    proof (cases "x = b")
      case True
      with kb show ?thesis by simp
    next
      case False
      with Cons.prems have "x \<in> insert r (set best)" by auto
      then obtain u where "u \<in> set (keep_best r best)"
        and "passage_id u = passage_id x \<and> score x \<le> score u"
        using Cons.IH by blast
      with kb show ?thesis by auto
    qed
  qed
qed

lemma dedup_fold_distinct:
  "distinct (map passage_id best) \<Longrightarrow>
   distinct (map passage_id (foldl (\<lambda>best r. keep_best r best) best pool))"
  by (induction pool arbitrary: best) (simp_all add: keep_best_distinct)

lemma dedup_fold_subset:
  "set (foldl (\<lambda>best r. keep_best r best) best pool) \<subseteq> set best \<union> set pool"
proof (induction pool arbitrary: best)
  case Nil
  then show ?case by simp
next
  case (Cons r pool)
  have "set (foldl (\<lambda>best r. keep_best r best) (keep_best r best) pool) \<subseteq>
        set (keep_best r best) \<union> set pool"
    by (rule Cons.IH)
  with keep_best_subset [of r best] show ?case by auto
qed

lemma dedup_fold_covers:
  "x \<in> set best \<union> set pool \<Longrightarrow>
   \<exists>u\<in>set (foldl (\<lambda>best r. keep_best r best) best pool).
     passage_id u = passage_id x \<and> score x \<le> score u"
proof (induction pool arbitrary: best x)
  case Nil
  then show ?case by auto
next
  case (Cons r pool)
  show ?case
  proof (cases "x \<in> set pool")
    case True
    then have "x \<in> set (keep_best r best) \<union> set pool" by simp
    from Cons.IH [OF this] show ?thesis by simp
  next
    case False
    with Cons.prems have "x \<in> insert r (set best)" by auto
    then obtain u' where u': "u' \<in> set (keep_best r best)"
      "passage_id u' = passage_id x" "score x \<le> score u'"
      using keep_best_covers by blast
    then have "u' \<in> set (keep_best r best) \<union> set pool" by simp
    from Cons.IH [OF this] obtain u
      where "u \<in> set (foldl (\<lambda>best r. keep_best r best) (keep_best r best) pool)"
        "passage_id u = passage_id u'" "score u' \<le> score u"
      by blast
    with u' show ?thesis by auto
  qed
qed

lemma deduplicate_distinct: "distinct (map passage_id (deduplicate pool))"
  unfolding deduplicate_def by (rule dedup_fold_distinct) simp

lemma deduplicate_subset: "set (deduplicate pool) \<subseteq> set pool"
  unfolding deduplicate_def using dedup_fold_subset [of "[]" pool] by simp

lemma deduplicate_covers:
  "p \<in> set pool \<Longrightarrow>
   \<exists>u\<in>set (deduplicate pool). passage_id u = passage_id p \<and> score p \<le> score u"
  unfolding deduplicate_def using dedup_fold_covers [of p "[]" pool] by simp

lemma deduplicate_best:
  assumes "u \<in> set (deduplicate pool)" and "p \<in> set pool" and "passage_id p = passage_id u"
  shows "score p \<le> score u"
proof -
  obtain u' where u': "u' \<in> set (deduplicate pool)" "passage_id u' = passage_id p"
    "score p \<le> score u'"
    using deduplicate_covers [OF assms(2)] by blast
  have "inj_on passage_id (set (deduplicate pool))"
    using deduplicate_distinct [of pool] by (simp add: distinct_map)
  with u'(1,2) assms(1,3) have "u' = u" by (simp add: inj_on_def)
  with u'(3) show ?thesis by simp
qed

lemma pool_results_concat:
  "pool_results self sub_queries acc =
     acc @ concat (map (\<lambda>sq. take 5 (rerank self sq (hybrid_search self sq 20))) sub_queries)"
  by (induction sub_queries arbitrary: acc) (simp_all add: Let_def)

lemma retrieve_from_unfold:
  "retrieve_from self sub_queries = take 10 (deduplicate (pool_results self sub_queries []))"
  by (simp add: retrieve_from_def)

lemma pool_dup:
  "pool_results dup_pipeline [''alpha'', ''beta''] [] =
     [cand ''p'' (9 / 10) ''sparse'', cand ''p'' (4 / 10) ''sparse'']"
proof -
  have hs: "hybrid_search dup_pipeline q 20 = [cand ''p'' 0 ''sparse'']" for q
    by (simp add: hybrid_search_def merge_results_def sparse_results_def sparse_indices_def
        np_argsort_def rep_stable_argsort stable_indices_def tail_slice_def get_scores_def dup_pipeline_def tag_def doc_def cand_def
        passage_id_def)
  show ?thesis
    by (simp add: hs rerank_def sorted_reverse_def) (simp add: dup_pipeline_def cand_def)
qed

text \<open>
  C4. In \<open>retrieve\<close>, after the loop that pools the five best re-ranked results of every
  sub-query: the results returned have pairwise different passage identities, each of them
  is an occurrence from the pool, and no occurrence of the same passage in the pool has a
  higher score. In the deduplicated pool, of which the first ten are returned, every passage
  of the pool is present, once.
\<close>

theorem retrieve_keeps_higher_score:
  "pool_results self sub_queries [] =
     concat (map (\<lambda>sq. take 5 (rerank self sq (hybrid_search self sq 20))) sub_queries) \<and>
   retrieve_from self sub_queries = take 10 (deduplicate (pool_results self sub_queries [])) \<and>
   distinct (map passage_id (deduplicate (pool_results self sub_queries []))) \<and>
   (\<forall>p\<in>set (pool_results self sub_queries []).
      \<exists>u\<in>set (deduplicate (pool_results self sub_queries [])).
        passage_id u = passage_id p \<and> score p \<le> score u) \<and>
   distinct (map passage_id (retrieve_from self sub_queries)) \<and>
   (\<forall>u\<in>set (retrieve_from self sub_queries).
      u \<in> set (pool_results self sub_queries []) \<and>
      (\<forall>p\<in>set (pool_results self sub_queries []).
         passage_id p = passage_id u \<longrightarrow> score p \<le> score u))"
proof -
  let ?pool = "pool_results self sub_queries []"
  have c: "?pool =
     concat (map (\<lambda>sq. take 5 (rerank self sq (hybrid_search self sq 20))) sub_queries)"
    by (simp add: pool_results_concat)
  have d: "distinct (map passage_id (deduplicate ?pool))"
    by (rule deduplicate_distinct)
  have cov: "\<forall>p\<in>set ?pool. \<exists>u\<in>set (deduplicate ?pool).
        passage_id u = passage_id p \<and> score p \<le> score u"
    using deduplicate_covers by blast
  have "distinct (take 10 (map passage_id (deduplicate ?pool)))"
    using d by (rule distinct_take)
  then have d': "distinct (map passage_id (retrieve_from self sub_queries))"
    by (simp add: retrieve_from_unfold take_map)
  have best: "u \<in> set ?pool \<and>
      (\<forall>p\<in>set ?pool. passage_id p = passage_id u \<longrightarrow> score p \<le> score u)"
    if "u \<in> set (retrieve_from self sub_queries)" for u
  proof -
    from that have u: "u \<in> set (deduplicate ?pool)"
      unfolding retrieve_from_unfold by (rule in_set_takeD)
    then have "u \<in> set ?pool" using deduplicate_subset by blast
    moreover have "score p \<le> score u"
      if "p \<in> set ?pool" and "passage_id p = passage_id u" for p
      using u that by (rule deduplicate_best)
    ultimately show ?thesis by blast
  qed
  have r: "retrieve_from self sub_queries = take 10 (deduplicate ?pool)"
    by (rule retrieve_from_unfold)
  have best': "\<forall>u\<in>set (retrieve_from self sub_queries).
      u \<in> set ?pool \<and>
      (\<forall>p\<in>set ?pool. passage_id p = passage_id u \<longrightarrow> score p \<le> score u)"
    using best by blast
  from c r d cov d' best' show ?thesis by (intro conjI)
qed

theorem retrieve_keeps_higher_score_witness:
  "pool_results dup_pipeline [''alpha'', ''beta''] [] =
     [cand ''p'' (9 / 10) ''sparse'', cand ''p'' (4 / 10) ''sparse''] \<and>
   passage_id (cand ''p'' (9 / 10) ''sparse'') = passage_id (cand ''p'' (4 / 10) ''sparse'') \<and>
   retrieve_from dup_pipeline [''alpha'', ''beta''] = [cand ''p'' (9 / 10) ''sparse''] \<and>
   distinct (map passage_id (retrieve_from dup_pipeline [''alpha'', ''beta'']))"
proof -
  have ev: "retrieve_from dup_pipeline [''alpha'', ''beta''] = [cand ''p'' (9 / 10) ''sparse'']"
    unfolding retrieve_from_unfold pool_dup
    by (simp add: deduplicate_def cand_def passage_id_def)
  have d: "distinct (map passage_id (retrieve_from dup_pipeline [''alpha'', ''beta'']))"
    using retrieve_keeps_higher_score [of dup_pipeline "[''alpha'', ''beta'']"] by blast
  have same: "passage_id (cand ''p'' (9 / 10) ''sparse'') =
      passage_id (cand ''p'' (4 / 10) ''sparse'')"
    by (simp add: cand_def passage_id_def)
  from pool_dup same ev d show ?thesis by (intro conjI)
qed

text \<open>
  C5 (as the code has it). The claim has \<open>retrieve\<close> return, for every query, at most ten
  results in non-increasing order of score. \<open>retrieve\<close> raises \<open>NameError\<close> for every
  query, from \<open>decompose_query\<close>. The steps after the decomposition do keep to ten
  results, and return the deduplicated pool in the order of first insertion, without
  sorting it: for two sub-queries whose best passages score 0.5 and 0.9 the result lists
  the score 0.5 before the score 0.9.
\<close>

theorem retrieve_raises_and_pool_unsorted:
  "retrieve self query strategy = Inl NameError \<and>
   length (retrieve_from self sub_queries) \<le> 10 \<and>
   retrieve_from ord_pipeline [''alpha'', ''beta''] =
     [cand ''x'' (5 / 10) ''sparse'', cand ''y'' (9 / 10) ''sparse''] \<and>
   \<not> sorted_wrt (\<ge>) (map score (retrieve_from ord_pipeline [''alpha'', ''beta'']))"
proof -
  have hs: "hybrid_search ord_pipeline q 20 = [cand ''x'' 0 ''sparse'', cand ''y'' 0 ''sparse'']"
    for q
    by (simp add: hybrid_search_def merge_results_def sparse_results_def sparse_indices_def
        np_argsort_def rep_stable_argsort stable_indices_def tail_slice_def get_scores_def ord_pipeline_def tag_def doc_def cand_def
        passage_id_def upt_rec)
  have ra: "rerank ord_pipeline ''alpha'' [cand ''x'' 0 ''sparse'', cand ''y'' 0 ''sparse''] =
      [cand ''x'' (5 / 10) ''sparse'', cand ''y'' (1 / 10) ''sparse'']"
    by (simp add: rerank_def sorted_reverse_def ord_pipeline_def cand_def)
  have rb: "rerank ord_pipeline ''beta'' [cand ''x'' 0 ''sparse'', cand ''y'' 0 ''sparse''] =
      [cand ''y'' (9 / 10) ''sparse'', cand ''x'' (2 / 10) ''sparse'']"
    by (simp add: rerank_def sorted_reverse_def ord_pipeline_def cand_def)
  have pool: "pool_results ord_pipeline [''alpha'', ''beta''] [] =
      [cand ''x'' (5 / 10) ''sparse'', cand ''y'' (1 / 10) ''sparse'',
       cand ''y'' (9 / 10) ''sparse'', cand ''x'' (2 / 10) ''sparse'']"
    by (simp add: hs ra rb)
  have ev: "retrieve_from ord_pipeline [''alpha'', ''beta''] =
      [cand ''x'' (5 / 10) ''sparse'', cand ''y'' (9 / 10) ''sparse'']"
    unfolding retrieve_from_unfold pool
    by (simp add: deduplicate_def cand_def passage_id_def)
  have raises: "retrieve self query strategy = Inl NameError"
    by (simp add: retrieve_def decompose_query_def)
  have len: "length (retrieve_from self sub_queries) \<le> 10"
    by (simp add: retrieve_from_unfold)
  have uns: "\<not> sorted_wrt (\<ge>) (map score (retrieve_from ord_pipeline [''alpha'', ''beta'']))"
    unfolding ev by (simp add: cand_def sorted_wrt2_simps del: sorted_wrt.simps)
  from raises len ev uns show ?thesis by (intro conjI)
qed

text \<open>
  C9. The citation built for a result in \<open>analyze_risks\<close> holds the source type \<open>10-K\<close>,
  the ticker and the year it is given, and what the result's metadata has under \<open>section\<close>
  and \<open>source_url\<close>: the absent marker \<open>None\<close> where a key is missing. No case of the
  construction is an error, and two results with the same metadata get the same citation.
\<close>

theorem citation_missing_metadata:
  "citation (risk_entry tkr y result) =
     \<lparr>cit_source_type = ''10-K'', cit_ticker = tkr, cit_year = y,
      cit_section = map_of (metadata result) ''section'',
      cit_url = map_of (metadata result) ''source_url''\<rparr> \<and>
   (''section'' \<notin> fst ` set (metadata result) \<longrightarrow>
      cit_section (citation (risk_entry tkr y result)) = None) \<and>
   (''source_url'' \<notin> fst ` set (metadata result) \<longrightarrow>
      cit_url (citation (risk_entry tkr y result)) = None) \<and>
   (metadata result = metadata result' \<longrightarrow>
      citation (risk_entry tkr y result) = citation (risk_entry tkr y result')) \<and>
   analyze_risks self tkr years y =
     map_option (map (risk_entry tkr y))
       (compare_across_years self (''What are the key business risks for '' @ tkr @ ''?'') years y)"
  by (simp add: risk_entry_def analyze_risks_def map_of_eq_None_iff)

theorem citation_missing_metadata_witness:
  "''source_url'' \<notin> fst ` set (metadata with_section) \<and>
   ''section'' \<notin> fst ` set (metadata (cand ''Liquidity risk'' 1 ''dense'')) \<and>
   citation (risk_entry ''ACME'' ''2022'' with_section) =
     \<lparr>cit_source_type = ''10-K'', cit_ticker = ''ACME'', cit_year = ''2022'',
      cit_section = Some ''Item 1A'', cit_url = None\<rparr> \<and>
   cit_section (citation (risk_entry ''ACME'' ''2022'' (cand ''Liquidity risk'' 1 ''dense''))) = None \<and>
   cit_url (citation (risk_entry ''ACME'' ''2022'' (cand ''Liquidity risk'' 1 ''dense''))) = None \<and>
   metadata (cand ''Liquidity risk'' 1 ''dense'') = metadata (cand ''Credit risk'' 2 ''sparse'') \<and>
   citation (risk_entry ''ACME'' ''2022'' (cand ''Liquidity risk'' 1 ''dense'')) =
     citation (risk_entry ''ACME'' ''2022'' (cand ''Credit risk'' 2 ''sparse''))"
proof -
  note a = citation_missing_metadata
      [of "''ACME''" "''2022''" with_section with_section rr_pipeline "[]"]
  note b = citation_missing_metadata
      [of "''ACME''" "''2022''" "cand ''Liquidity risk'' 1 ''dense''"
        "cand ''Credit risk'' 2 ''sparse''" rr_pipeline "[]"]
  have h1: "''source_url'' \<notin> fst ` set (metadata with_section)"
    by (simp add: with_section_def)
  have h2: "''section'' \<notin> fst ` set (metadata (cand ''Liquidity risk'' 1 ''dense''))"
    by (simp add: cand_def)
  have h3: "metadata (cand ''Liquidity risk'' 1 ''dense'') =
      metadata (cand ''Credit risk'' 2 ''sparse'')"
    by (simp add: cand_def)
  have c1: "citation (risk_entry ''ACME'' ''2022'' with_section) =
     \<lparr>cit_source_type = ''10-K'', cit_ticker = ''ACME'', cit_year = ''2022'',
      cit_section = Some ''Item 1A'', cit_url = None\<rparr>"
    using a by (simp add: with_section_def)
  have c2: "cit_section (citation (risk_entry ''ACME'' ''2022''
      (cand ''Liquidity risk'' 1 ''dense''))) = None"
    using b h2 by blast
  have c3: "cit_url (citation (risk_entry ''ACME'' ''2022''
      (cand ''Liquidity risk'' 1 ''dense''))) = None"
    using b by (simp add: cand_def)
  have c4: "citation (risk_entry ''ACME'' ''2022'' (cand ''Liquidity risk'' 1 ''dense'')) =
     citation (risk_entry ''ACME'' ''2022'' (cand ''Credit risk'' 2 ''sparse''))"
    using b h3 by blast
  from h1 h2 c1 c2 c3 h3 c4 show ?thesis by (intro conjI)
qed

text \<open>
  C10. \<open>retrieve\<close> gives the same outcome for any two strategy strings, the outcome for
  \<open>hybrid\<close> in particular: what it computes is the decomposition of the query followed
  by the pooled retrieval, and neither reads the strategy.
\<close>

theorem retrieve_ignores_strategy:
  "retrieve self query s1 = retrieve self query s2 \<and>
   retrieve self query s1 = retrieve self query ''hybrid'' \<and>
   retrieve self query s1 =
     (case decompose_query self query of
        Inl e \<Rightarrow> Inl e
      | Inr sub_queries \<Rightarrow> Inr (retrieve_from self sub_queries))"
  by (simp add: retrieve_def)

theorem retrieve_ignores_strategy_witness:
  "retrieve six_pipeline ''Revenue trends'' ''graph'' =
   retrieve six_pipeline ''Revenue trends'' ''hybrid''"
  using retrieve_ignores_strategy [of six_pipeline "''Revenue trends''" "''graph''" "''hybrid''"]
  by simp


lemma sparse_results_cong:
  assumes "documents s1 = documents s2" and "argsort s1 = argsort s2"
    and "\<forall>i<length (documents s1). bm25 s1 (str_split q) i = bm25 s2 (str_split q) i"
  shows "sparse_results s1 q k = sparse_results s2 q k"
proof -
  have "get_scores s1 (str_split q) = get_scores s2 (str_split q)"
    using assms(1,3) by (simp add: get_scores_def)
  moreover have "sparse_indices s1 a k = sparse_indices s2 a k" for a
    using assms(2) by (simp add: sparse_indices_def np_argsort_def)
  ultimately show ?thesis
    using assms(1) by (simp add: sparse_results_def)
qed

lemma rerank_cong:
  assumes "reranker s1 (map (\<lambda>r. (q, content r)) rs) = reranker s2 (map (\<lambda>r. (q, content r)) rs)"
  shows "rerank s1 q rs = rerank s2 q rs"
  using assms by (simp add: rerank_def)

lemma pool_results_cong:
  assumes "documents s1 = documents s2" and "argsort s1 = argsort s2"
    and "\<forall>q\<in>set sqs. vector_store s1 q 20 = vector_store s2 q 20 \<and>
           (\<forall>i<length (documents s1). bm25 s1 (str_split q) i = bm25 s2 (str_split q) i)"
    and "\<forall>pairs. (\<forall>p\<in>set pairs. fst p \<in> set sqs) \<longrightarrow> reranker s1 pairs = reranker s2 pairs"
  shows "pool_results s1 sqs acc = pool_results s2 sqs acc"
  using assms(3,4)
proof (induction sqs arbitrary: acc)
  case Nil
  then show ?case by simp
next
  case (Cons q sqs)
  have sp: "sparse_results s1 q 20 = sparse_results s2 q 20"
    using assms(1,2) Cons.prems(1) by (intro sparse_results_cong) simp_all
  have hs: "hybrid_search s1 q 20 = hybrid_search s2 q 20"
    using Cons.prems(1) sp by (simp add: hybrid_search_def)
  have "\<forall>p\<in>set (map (\<lambda>r. (q, content r)) (hybrid_search s2 q 20)). fst p \<in> set (q # sqs)"
    by simp
  then have "reranker s1 (map (\<lambda>r. (q, content r)) (hybrid_search s2 q 20)) =
             reranker s2 (map (\<lambda>r. (q, content r)) (hybrid_search s2 q 20))"
    using Cons.prems(2) by blast
  then have rr: "rerank s1 q (hybrid_search s2 q 20) = rerank s2 q (hybrid_search s2 q 20)"
    by (rule rerank_cong)
  have tl1: "\<forall>q\<in>set sqs. vector_store s1 q 20 = vector_store s2 q 20 \<and>
           (\<forall>i<length (documents s1). bm25 s1 (str_split q) i = bm25 s2 (str_split q) i)"
    using Cons.prems(1) by simp
  have tl2: "\<forall>pairs. (\<forall>p\<in>set pairs. fst p \<in> set sqs) \<longrightarrow>
      reranker s1 pairs = reranker s2 pairs"
  proof (intro allI impI)
    fix pairs :: "(string \<times> string) list"
    assume "\<forall>p\<in>set pairs. fst p \<in> set sqs"
    then have "\<forall>p\<in>set pairs. fst p \<in> set (q # sqs)" by simp
    with Cons.prems(2) show "reranker s1 pairs = reranker s2 pairs" by blast
  qed
  show ?case
    using Cons.IH [OF tl1 tl2] by (simp add: hs rr Let_def)
qed

lemma hybrid_search_ord: "hybrid_search ord_pipeline q 20 =
    [cand ''x'' 0 ''sparse'', cand ''y'' 0 ''sparse'']"
  by (simp add: hybrid_search_def merge_results_def sparse_results_def sparse_indices_def
      np_argsort_def rep_stable_argsort stable_indices_def tail_slice_def get_scores_def
      ord_pipeline_def tag_def doc_def cand_def passage_id_def upt_rec)

lemma retrieve_from_ord:
  "retrieve_from ord_pipeline [''alpha'', ''beta''] =
     [cand ''x'' (5 / 10) ''sparse'', cand ''y'' (9 / 10) ''sparse'']"
proof -
  have ra: "rerank ord_pipeline ''alpha'' [cand ''x'' 0 ''sparse'', cand ''y'' 0 ''sparse''] =
      [cand ''x'' (5 / 10) ''sparse'', cand ''y'' (1 / 10) ''sparse'']"
    by (simp add: rerank_def sorted_reverse_def ord_pipeline_def cand_def)
  have rb: "rerank ord_pipeline ''beta'' [cand ''x'' 0 ''sparse'', cand ''y'' 0 ''sparse''] =
      [cand ''y'' (9 / 10) ''sparse'', cand ''x'' (2 / 10) ''sparse'']"
    by (simp add: rerank_def sorted_reverse_def ord_pipeline_def cand_def)
  have pool: "pool_results ord_pipeline [''alpha'', ''beta''] [] =
      [cand ''x'' (5 / 10) ''sparse'', cand ''y'' (1 / 10) ''sparse'',
       cand ''y'' (9 / 10) ''sparse'', cand ''x'' (2 / 10) ''sparse'']"
    by (simp add: hybrid_search_ord ra rb)
  show ?thesis
    unfolding retrieve_from_unfold pool
    by (simp add: deduplicate_def cand_def passage_id_def)
qed

text \<open>
  C7 (counterexample). The claim has the sparse top-k selection rank the smaller corpus
  index first among equal scores. Take two documents with the same score and an
  \<open>argsort\<close> that keeps equal values in index order, as a stable sort does: the selection
  of two lists index 1 before index 0, and the selection of one is the second document.
\<close>

theorem sparse_tie_order_counterexample:
  "argsort tie_pipeline = stable_argsort \<and>
   get_scores tie_pipeline (str_split ''risk'') = [1, 1] \<and>
   sparse_indices tie_pipeline [1, 1] 2 = [1, 0] \<and>
   sparse_results tie_pipeline ''risk'' 1 = [doc ''second'']"
  by (simp add: sparse_indices_def np_argsort_def rep_stable_argsort stable_indices_def
      tail_slice_def sparse_results_def get_scores_def tie_pipeline_def upt_rec)

text \<open>
  C7 (amended). Retrieval depends on its index, its models and its \<open>argsort\<close> only through
  what they answer for the sub-queries asked: two pipelines with the same documents and the
  same \<open>argsort\<close>, whose dense index and lexical model answer alike for every sub-query and
  whose re-ranker answers alike for every batch of pairs of these sub-queries, return the
  same sequence, in the same order. The sparse selection
  \<open>np.argsort(scores)[-k:][::-1]\<close> lists no index twice and no score before a higher one;
  for \<open>k \<ge> 1\<close> it has \<open>min k n\<close> indices; no index left out has a higher score than
  an index selected. The code fixes no order among equal scores: they come in the reverse of
  the order in which \<open>argsort\<close> lists them.
\<close>

theorem retrieve_deterministic_scores_descending:
  "(documents s1 = documents s2 \<and> argsort s1 = argsort s2 \<and>
    (\<forall>q\<in>set sub_queries. vector_store s1 q 20 = vector_store s2 q 20 \<and>
       (\<forall>i<length (documents s1). bm25 s1 (str_split q) i = bm25 s2 (str_split q) i)) \<and>
    (\<forall>pairs. (\<forall>p\<in>set pairs. fst p \<in> set sub_queries) \<longrightarrow>
       reranker s1 pairs = reranker s2 pairs) \<longrightarrow>
    retrieve_from s1 sub_queries = retrieve_from s2 sub_queries \<and>
    retrieve s1 query strategy = retrieve s2 query strategy) \<and>
   distinct (sparse_indices self a k) \<and>
   sorted_wrt (\<lambda>i j. a ! j \<le> a ! i) (sparse_indices self a k) \<and>
   (1 \<le> k \<longrightarrow> length (sparse_indices self a k) = min (nat k) (length a)) \<and>
   (\<forall>i\<in>set (sparse_indices self a k). \<forall>j<length a.
      j \<notin> set (sparse_indices self a k) \<longrightarrow> a ! j \<le> a ! i) \<and>
   (\<forall>v. filter (\<lambda>i. a ! i = v) (sparse_indices self a k) =
        rev (filter (\<lambda>i. a ! i = v) (tail_slice k (np_argsort self a))))"
proof -
  have det: "retrieve_from s1 sub_queries = retrieve_from s2 sub_queries \<and>
      retrieve s1 query strategy = retrieve s2 query strategy"
    if "documents s1 = documents s2 \<and> argsort s1 = argsort s2 \<and>
      (\<forall>q\<in>set sub_queries. vector_store s1 q 20 = vector_store s2 q 20 \<and>
         (\<forall>i<length (documents s1). bm25 s1 (str_split q) i = bm25 s2 (str_split q) i)) \<and>
      (\<forall>pairs. (\<forall>p\<in>set pairs. fst p \<in> set sub_queries) \<longrightarrow>
         reranker s1 pairs = reranker s2 pairs)"
  proof -
    from that have "pool_results s1 sub_queries [] = pool_results s2 sub_queries []"
      by (intro pool_results_cong) blast+
    then have "retrieve_from s1 sub_queries = retrieve_from s2 sub_queries"
      by (simp add: retrieve_from_unfold)
    moreover have "retrieve s1 query strategy = retrieve s2 query strategy"
      by (simp add: retrieve_def decompose_query_def)
    ultimately show ?thesis by simp
  qed
  have d: "distinct (sparse_indices self a k)"
    by (rule distinct_sparse_indices)
  have srt: "sorted_wrt (\<lambda>i j. a ! j \<le> a ! i) (sparse_indices self a k)"
    by (rule sparse_indices_descending)
  have len: "1 \<le> k \<longrightarrow> length (sparse_indices self a k) = min (nat k) (length a)"
    by (simp add: length_sparse_indices)
  have top: "\<forall>i\<in>set (sparse_indices self a k). \<forall>j<length a.
      j \<notin> set (sparse_indices self a k) \<longrightarrow> a ! j \<le> a ! i"
    using sparse_indices_top by blast
  have ties: "\<forall>v. filter (\<lambda>i. a ! i = v) (sparse_indices self a k) =
        rev (filter (\<lambda>i. a ! i = v) (tail_slice k (np_argsort self a)))"
    by (simp add: sparse_indices_def rev_filter)
  from det d srt len top ties show ?thesis by blast
qed

theorem retrieve_deterministic_scores_descending_witness:
  "documents ord_pipeline = documents ord_pipeline2 \<and>
   argsort ord_pipeline = argsort ord_pipeline2 \<and>
   bm25 ord_pipeline = bm25 ord_pipeline2 \<and>
   reranker ord_pipeline = reranker ord_pipeline2 \<and>
   vector_store ord_pipeline ''alpha'' 20 = vector_store ord_pipeline2 ''alpha'' 20 \<and>
   vector_store ord_pipeline ''beta'' 20 = vector_store ord_pipeline2 ''beta'' 20 \<and>
   vector_store ord_pipeline ''gamma'' 20 \<noteq> vector_store ord_pipeline2 ''gamma'' 20 \<and>
   retrieve_from ord_pipeline [''alpha'', ''beta''] =
     retrieve_from ord_pipeline2 [''alpha'', ''beta''] \<and>
   retrieve_from ord_pipeline2 [''alpha'', ''beta''] =
     [cand ''x'' (5 / 10) ''sparse'', cand ''y'' (9 / 10) ''sparse''] \<and>
   (1::int) \<le> 2 \<and>
   sparse_indices hy_pipeline [3, 1, 7, 5] 2 = [2, 3] \<and>
   0 \<notin> set (sparse_indices hy_pipeline [3, 1, 7, 5] 2) \<and>
   [3, 1, 7, 5 :: real] ! 0 \<le> [3, 1, 7, 5] ! 3 \<and>
   length (sparse_indices hy_pipeline [3, 1, 7, 5] 2) = 2"
proof -
  have same: "documents ord_pipeline = documents ord_pipeline2"
    "argsort ord_pipeline = argsort ord_pipeline2"
    "bm25 ord_pipeline = bm25 ord_pipeline2"
    "reranker ord_pipeline = reranker ord_pipeline2"
    by (simp_all add: ord_pipeline2_def)
  have vs: "vector_store ord_pipeline ''alpha'' 20 = vector_store ord_pipeline2 ''alpha'' 20"
    "vector_store ord_pipeline ''beta'' 20 = vector_store ord_pipeline2 ''beta'' 20"
    by (simp_all add: ord_pipeline2_def ord_pipeline_def)
  have diff: "vector_store ord_pipeline ''gamma'' 20 \<noteq> vector_store ord_pipeline2 ''gamma'' 20"
    by (simp add: ord_pipeline2_def ord_pipeline_def)
  have hyp: "documents ord_pipeline = documents ord_pipeline2 \<and>
      argsort ord_pipeline = argsort ord_pipeline2 \<and>
      (\<forall>q\<in>set [''alpha'', ''beta''].
         vector_store ord_pipeline q 20 = vector_store ord_pipeline2 q 20 \<and>
         (\<forall>i<length (documents ord_pipeline).
            bm25 ord_pipeline (str_split q) i = bm25 ord_pipeline2 (str_split q) i)) \<and>
      (\<forall>pairs. (\<forall>p\<in>set pairs. fst p \<in> set [''alpha'', ''beta'']) \<longrightarrow>
         reranker ord_pipeline pairs = reranker ord_pipeline2 pairs)"
    using same vs by simp
  note t = retrieve_deterministic_scores_descending
    [of ord_pipeline ord_pipeline2 "[''alpha'', ''beta'']" "''q''" "''hybrid''"
      hy_pipeline "[3, 1, 7, 5]" 2]
  have eq: "retrieve_from ord_pipeline [''alpha'', ''beta''] =
     retrieve_from ord_pipeline2 [''alpha'', ''beta'']"
    using t hyp by blast
  have val: "retrieve_from ord_pipeline2 [''alpha'', ''beta''] =
     [cand ''x'' (5 / 10) ''sparse'', cand ''y'' (9 / 10) ''sparse'']"
    using eq retrieve_from_ord by simp
  have ev: "sparse_indices hy_pipeline [3, 1, 7, 5] 2 = [2, 3]"
    by (simp add: sparse_indices_def np_argsort_def rep_stable_argsort stable_indices_def
        tail_slice_def hy_pipeline_def upt_rec)
  have rest: "(1::int) \<le> 2"
    "0 \<notin> set (sparse_indices hy_pipeline [3, 1, 7, 5] 2)"
    "[3, 1, 7, 5 :: real] ! 0 \<le> [3, 1, 7, 5] ! 3"
    "length (sparse_indices hy_pipeline [3, 1, 7, 5] 2) = 2"
    by (simp_all add: ev)
  from same vs diff eq val rest ev show ?thesis by (intro conjI)
qed

lemma foldl_map_upd:
  "foldl (\<lambda>m y. m(y \<mapsto> f y)) m0 ys y = (if y \<in> set ys then Some (f y) else m0 y)"
  by (induction ys arbitrary: m0) auto

lemma compare_across_years_lookup:
  "compare_across_years self query years y =
     (if y \<in> set years then Some (hybrid_search self (filtered_query query y) 5) else None)"
  unfolding compare_across_years_def by (simp add: foldl_map_upd)

lemma hybrid_search_six:
  "hybrid_search six_pipeline q 5 =
     [cand ''d0'' 0 ''dense'', cand ''d5'' 0 ''sparse'', cand ''d4'' 0 ''sparse'',
      cand ''d3'' 0 ''sparse'', cand ''d2'' 0 ''sparse'', cand ''d1'' 0 ''sparse'']"
proof -
  have sp: "sparse_results six_pipeline q 5 =
      [doc ''d5'', doc ''d4'', doc ''d3'', doc ''d2'', doc ''d1'']"
    by (simp add: sparse_results_def sparse_indices_def np_argsort_def rep_stable_argsort stable_indices_def tail_slice_def
        get_scores_def six_pipeline_def upt_rec)
  have ds: "vector_store six_pipeline q 5 = [doc ''d0'']"
    by (simp add: six_pipeline_def)
  show ?thesis
    by (simp add: hybrid_search_def sp ds merge_results_def tag_def doc_def cand_def
        passage_id_def)
qed

lemma sparse_results_nonempty:
  assumes "1 \<le> k" and "documents self \<noteq> []"
  shows "sparse_results self query k \<noteq> []"
proof -
  have "length (sparse_results self query k) = min (nat k) (length (documents self))"
    using assms(1) by (rule length_sparse_results)
  moreover have "0 < nat k" and "0 < length (documents self)"
    using assms by simp_all
  ultimately have "0 < length (sparse_results self query k)" by simp
  then show ?thesis by simp
qed

lemma hybrid_search_holds_sparse:
  "set (map passage_id (sparse_results self query k)) \<subseteq>
   set (map passage_id (hybrid_search self query k))"
  unfolding hybrid_search_unfold merge_results_ids by blast

lemma hybrid_search_nonempty:
  assumes "1 \<le> k" and "documents self \<noteq> []"
  shows "hybrid_search self query k \<noteq> []"
proof
  assume "hybrid_search self query k = []"
  with hybrid_search_holds_sparse [of self query k]
  have "sparse_results self query k = []" by simp
  with sparse_results_nonempty [OF assms] show False by simp
qed

lemma hybrid_search_rr: "hybrid_search rr_pipeline q 5 = [cand ''a'' 0 ''sparse'']"
  by (simp add: hybrid_search_def merge_results_def sparse_results_def sparse_indices_def
      np_argsort_def rep_stable_argsort stable_indices_def tail_slice_def get_scores_def
      rr_pipeline_def tag_def doc_def cand_def passage_id_def)

lemma hybrid_search_match:
  "hybrid_search match_pipeline q 5 =
     [cand ''risk factors'' 0 ''sparse'', cand ''board members'' 0 ''sparse'']"
  by (simp add: hybrid_search_def merge_results_def sparse_results_def sparse_indices_def
      np_argsort_def rep_stable_argsort stable_indices_def tail_slice_def get_scores_def
      match_pipeline_def tag_def doc_def cand_def passage_id_def upt_rec)

lemma hybrid_search_y23:
  "hybrid_search y23_pipeline q 5 =
     [\<lparr>content = ''Supply chain risk'', metadata = [(''year'', ''2023'')],
       score = 0, source = ''sparse''\<rparr>]"
  by (simp add: hybrid_search_def merge_results_def sparse_results_def sparse_indices_def
      np_argsort_def rep_stable_argsort stable_indices_def tail_slice_def get_scores_def
      y23_pipeline_def tag_def passage_id_def)

text \<open>
  C8 (counterexample). The claim has \<open>hybrid_search\<close> return, when the dense index answers
  with nothing, exactly the passages that match lexically, and the empty sequence when
  nothing matches either. Two documents with lexical scores 1 and 0 and no dense result:
  both come back, the one that does not match included. One document with the score 0 and
  no dense result: it comes back, and the result is not empty.
\<close>

theorem hybrid_search_dense_empty_counterexample:
  "vector_store match_pipeline ''risk'' 5 = [] \<and>
   get_scores match_pipeline (str_split ''risk'') = [1, 0] \<and>
   hybrid_search match_pipeline ''risk'' 5 =
     [cand ''risk factors'' 0 ''sparse'', cand ''board members'' 0 ''sparse''] \<and>
   vector_store rr_pipeline ''risk'' 5 = [] \<and>
   get_scores rr_pipeline (str_split ''risk'') = [0] \<and>
   hybrid_search rr_pipeline ''risk'' 5 = [cand ''a'' 0 ''sparse'']"
proof -
  have "vector_store match_pipeline ''risk'' 5 = []"
    and "get_scores match_pipeline (str_split ''risk'') = [1, 0]"
    by (simp_all add: match_pipeline_def get_scores_def upt_rec)
  moreover have "vector_store rr_pipeline ''risk'' 5 = []"
    and "get_scores rr_pipeline (str_split ''risk'') = [0]"
    by (simp_all add: rr_pipeline_def get_scores_def)
  ultimately show ?thesis
    by (simp add: hybrid_search_match hybrid_search_rr)
qed

text \<open>
  C8 (amended). When the dense index answers with nothing, \<open>hybrid_search\<close> returns the
  sparse candidates, tagged \<open>sparse\<close>, one entry for every passage identity among them:
  exactly the candidates, in their order, when their identities are pairwise different.
  For \<open>k \<ge> 1\<close> the sparse candidates are \<open>min k N\<close> of the \<open>N\<close> documents, whatever
  their lexical scores, so with a corpus that is not empty the result is not empty, also
  when no passage matches. No case is an error.
\<close>

theorem hybrid_search_dense_empty_sparse_candidates:
  assumes "vector_store self query k = []"
  shows "(\<forall>r\<in>set (hybrid_search self query k). source r = ''sparse'') \<and>
         distinct (map passage_id (hybrid_search self query k)) \<and>
         set (map passage_id (hybrid_search self query k)) =
           set (map passage_id (sparse_results self query k)) \<and>
         (distinct (map passage_id (sparse_results self query k)) \<longrightarrow>
            hybrid_search self query k = map (tag ''sparse'') (sparse_results self query k)) \<and>
         (1 \<le> k \<longrightarrow>
            length (sparse_results self query k) = min (nat k) (length (documents self))) \<and>
         (1 \<le> k \<and> documents self \<noteq> [] \<longrightarrow> hybrid_search self query k \<noteq> [])"
proof -
  let ?sp = "sparse_results self query k"
  have out: "hybrid_search self query k = keep_first [] (map (tag ''sparse'') ?sp)"
    by (simp add: hybrid_search_def merge_results_def assms comp_def)
  have "set (hybrid_search self query k) \<subseteq> set (map (tag ''sparse'') ?sp)"
    unfolding out by (rule keep_first_subset)
  then have tagged: "\<forall>r\<in>set (hybrid_search self query k). source r = ''sparse''"
    by (auto simp: tag_def)
  have d: "distinct (map passage_id (hybrid_search self query k))"
    unfolding hybrid_search_unfold by (rule merge_results_distinct)
  have ids: "map passage_id (map (tag ''sparse'') ?sp) = map passage_id ?sp"
    by (simp add: passage_id_tag)
  have same: "set (map passage_id (hybrid_search self query k)) = set (map passage_id ?sp)"
    unfolding hybrid_search_unfold merge_results_ids by (simp add: assms)
  have all: "hybrid_search self query k = map (tag ''sparse'') ?sp"
    if "distinct (map passage_id ?sp)"
    unfolding out using that by (intro keep_first_all) (simp_all only: ids set_simps Int_empty_right)
  have len: "1 \<le> k \<longrightarrow> length ?sp = min (nat k) (length (documents self))"
    by (simp add: length_sparse_results)
  have ne: "1 \<le> k \<and> documents self \<noteq> [] \<longrightarrow> hybrid_search self query k \<noteq> []"
    using hybrid_search_nonempty by blast
  from tagged d same all len ne show ?thesis by blast
qed

theorem hybrid_search_dense_empty_sparse_candidates_witness:
  "vector_store match_pipeline ''risk'' 5 = [] \<and>
   (1::int) \<le> 5 \<and>
   documents match_pipeline \<noteq> [] \<and>
   sparse_results match_pipeline ''risk'' 5 = [doc ''risk factors'', doc ''board members''] \<and>
   distinct (map passage_id (sparse_results match_pipeline ''risk'' 5)) \<and>
   hybrid_search match_pipeline ''risk'' 5 =
     map (tag ''sparse'') (sparse_results match_pipeline ''risk'' 5) \<and>
   hybrid_search match_pipeline ''risk'' 5 \<noteq> [] \<and>
   length (sparse_results match_pipeline ''risk'' 5) = min (nat 5) (length (documents match_pipeline))"
proof -
  have d: "vector_store match_pipeline ''risk'' 5 = []"
    by (simp add: match_pipeline_def)
  have k: "(1::int) \<le> 5" by simp
  have ne: "documents match_pipeline \<noteq> []"
    by (simp add: match_pipeline_def)
  have sp: "sparse_results match_pipeline ''risk'' 5 = [doc ''risk factors'', doc ''board members'']"
    by (simp add: sparse_results_def sparse_indices_def np_argsort_def rep_stable_argsort
        stable_indices_def tail_slice_def get_scores_def match_pipeline_def upt_rec)
  have dist: "distinct (map passage_id (sparse_results match_pipeline ''risk'' 5))"
    unfolding sp by (simp add: doc_def passage_id_def)
  note t = hybrid_search_dense_empty_sparse_candidates [OF d]
  have eq: "hybrid_search match_pipeline ''risk'' 5 =
     map (tag ''sparse'') (sparse_results match_pipeline ''risk'' 5)"
    using t dist by blast
  have nonempty: "hybrid_search match_pipeline ''risk'' 5 \<noteq> []"
    using t k ne by blast
  have len: "length (sparse_results match_pipeline ''risk'' 5) =
      min (nat 5) (length (documents match_pipeline))"
    using t k by blast
  from d k ne sp dist eq nonempty len show ?thesis by (intro conjI)
qed

text \<open>
  C6 (counterexample). The claim has every entry come from \<open>hybrid_search\<close> followed by
  \<open>rerank\<close>, hold at most 5 results, and be empty for a year that has no passages. Six
  documents, one of them also the dense answer: the entry of the year has six results, the
  dense one first; re-ranking the same candidates would put it last. A corpus whose only
  passage is of the year 2023: the entry of the year 2021 is that passage.
\<close>

theorem compare_across_years_counterexample:
  "map_option length (compare_across_years six_pipeline ''risk'' [''2021''] ''2021'') = Some 6 \<and>
   map_option (map content) (compare_across_years six_pipeline ''risk'' [''2021''] ''2021'') =
     Some [''d0'', ''d5'', ''d4'', ''d3'', ''d2'', ''d1''] \<and>
   map content (rerank six_pipeline (filtered_query ''risk'' ''2021'')
                  (hybrid_search six_pipeline (filtered_query ''risk'' ''2021'') 5)) =
     [''d5'', ''d4'', ''d3'', ''d2'', ''d1'', ''d0''] \<and>
   compare_across_years y23_pipeline ''risk'' [''2021''] ''2021'' =
     Some [\<lparr>content = ''Supply chain risk'', metadata = [(''year'', ''2023'')],
            score = 0, source = ''sparse''\<rparr>]"
proof -
  have rr: "map content (rerank six_pipeline (filtered_query ''risk'' ''2021'')
                  (hybrid_search six_pipeline (filtered_query ''risk'' ''2021'') 5)) =
     [''d5'', ''d4'', ''d3'', ''d2'', ''d1'', ''d0'']"
    unfolding hybrid_search_six
    by (simp add: rerank_def six_pipeline_def cand_def sorted_reverse_def)
  have n: "map_option length (compare_across_years six_pipeline ''risk'' [''2021''] ''2021'') =
      Some 6"
    by (simp add: compare_across_years_lookup hybrid_search_six)
  have cs: "map_option (map content)
      (compare_across_years six_pipeline ''risk'' [''2021''] ''2021'') =
      Some [''d0'', ''d5'', ''d4'', ''d3'', ''d2'', ''d1'']"
    by (simp add: compare_across_years_lookup hybrid_search_six cand_def)
  have y: "compare_across_years y23_pipeline ''risk'' [''2021''] ''2021'' =
     Some [\<lparr>content = ''Supply chain risk'', metadata = [(''year'', ''2023'')],
            score = 0, source = ''sparse''\<rparr>]"
    by (simp add: compare_across_years_lookup hybrid_search_y23)
  from n cs rr y show ?thesis by (intro conjI)
qed

text \<open>
  C6 (amended). \<open>compare_across_years\<close> returns a mapping whose keys are exactly the
  supplied years; no year is left out. The entry of a year is the result of one
  \<open>hybrid_search\<close> on the query annotated with the year, with \<open>k = 5\<close>, and of no
  re-ranking pass. An entry holds at most 10 results when the dense index answers with at
  most 5. (What the entry of a year without passages holds is not part of the statement:
  line 76 announces a year filter on the metadata that lines 77-78 do not apply.)
\<close>

theorem compare_across_years_entries:
  "dom (compare_across_years self query years) = set years \<and>
   (\<forall>y\<in>set years. compare_across_years self query years y =
        Some (hybrid_search self (filtered_query query y) 5)) \<and>
   (\<forall>y\<in>set years. \<forall>rs.
        compare_across_years self query years y = Some rs \<and>
        int (length (vector_store self (filtered_query query y) 5)) \<le> 5 \<longrightarrow>
        length rs \<le> 10)"
proof -
  have keys: "dom (compare_across_years self query years) = set years"
    by (auto simp: dom_def compare_across_years_lookup)
  have entry: "\<forall>y\<in>set years. compare_across_years self query years y =
        Some (hybrid_search self (filtered_query query y) 5)"
    by (simp add: compare_across_years_lookup)
  have bound: "length rs \<le> 10"
    if "y \<in> set years" and "compare_across_years self query years y = Some rs"
      and dl: "int (length (vector_store self (filtered_query query y) 5)) \<le> 5"
    for y rs
  proof -
    have rs: "rs = hybrid_search self (filtered_query query y) 5"
      using that(1,2) by (simp add: compare_across_years_lookup)
    have "length (hybrid_search self (filtered_query query y) 5) \<le>
          length (vector_store self (filtered_query query y) 5) +
          length (sparse_results self (filtered_query query y) 5)"
      unfolding hybrid_search_unfold by (rule length_merge_results)
    moreover have "length (sparse_results self (filtered_query query y) 5) =
          min (nat 5) (length (documents self))"
      by (rule length_sparse_results) simp
    ultimately show ?thesis using dl rs by simp
  qed
  from keys entry bound show ?thesis by blast
qed

theorem compare_across_years_entries_witness:
  "dom (compare_across_years six_pipeline ''risk'' [''2021'', ''2022'']) = {''2021'', ''2022''} \<and>
   ''2022'' \<in> set [''2021'', ''2022''] \<and>
   int (length (vector_store six_pipeline (filtered_query ''risk'' ''2022'') 5)) \<le> 5 \<and>
   compare_across_years six_pipeline ''risk'' [''2021'', ''2022''] ''2022'' =
     Some (hybrid_search six_pipeline (filtered_query ''risk'' ''2022'') 5) \<and>
   length (hybrid_search six_pipeline (filtered_query ''risk'' ''2022'') 5) = 6 \<and>
   length (hybrid_search six_pipeline (filtered_query ''risk'' ''2022'') 5) \<le> 10"
proof -
  note t = compare_across_years_entries [of six_pipeline "''risk''" "[''2021'', ''2022'']"]
  have y: "''2022'' \<in> set [''2021'', ''2022'']" by simp
  have keys: "dom (compare_across_years six_pipeline ''risk'' [''2021'', ''2022'']) =
      {''2021'', ''2022''}"
    using t by simp
  have dl: "int (length (vector_store six_pipeline (filtered_query ''risk'' ''2022'') 5)) \<le> 5"
    by (simp add: six_pipeline_def)
  have e: "compare_across_years six_pipeline ''risk'' [''2021'', ''2022''] ''2022'' =
     Some (hybrid_search six_pipeline (filtered_query ''risk'' ''2022'') 5)"
    using t y by blast
  have six: "length (hybrid_search six_pipeline (filtered_query ''risk'' ''2022'') 5) = 6"
    by (simp add: hybrid_search_six)
  have bound: "length (hybrid_search six_pipeline (filtered_query ''risk'' ''2022'') 5) \<le> 10"
    using t y e dl by blast
  from keys y dl e six bound show ?thesis by (intro conjI)
qed

end
